theory Spec2Isabelle
  imports Complex_Main "HOL-Library.AList"
begin

section \<open>Python strings\<close>

text \<open>
  A Python \<open>str\<close> is a sequence of code points. The model is exact on the code points
  U+0000 to U+00FF: a \<^typ>\<open>char\<close> is read as the code point with that number, and the
  character classes below are the ones CPython uses there (\<open>str.isspace\<close>, which is
  also the class \<open>\s\<close> of \<open>re\<close> on a \<open>str\<close> pattern; \<open>str.lower\<close>; the
  class \<open>\w\<close>).
\<close>

definition py_isspace_char :: "char \<Rightarrow> bool" where
  "py_isspace_char c =
     (let n = (of_char c :: nat)
      in (9 \<le> n \<and> n \<le> 13) \<or> (28 \<le> n \<and> n \<le> 32) \<or> n = 133 \<or> n = 160)"

definition py_lower_char :: "char \<Rightarrow> char" where
  "py_lower_char c =
     (let n = (of_char c :: nat)
      in if (65 \<le> n \<and> n \<le> 90) \<or> (192 \<le> n \<and> n \<le> 214) \<or> (216 \<le> n \<and> n \<le> 222)
         then char_of (n + 32) else c)"

definition py_word_char :: "char \<Rightarrow> bool" where
  "py_word_char c =
     (let n = (of_char c :: nat)
      in (48 \<le> n \<and> n \<le> 57) \<or> (65 \<le> n \<and> n \<le> 90) \<or> n = 95 \<or> (97 \<le> n \<and> n \<le> 122)
         \<or> n = 170 \<or> n = 178 \<or> n = 179 \<or> n = 181 \<or> n = 185 \<or> n = 186
         \<or> (188 \<le> n \<and> n \<le> 190) \<or> (192 \<le> n \<and> n \<le> 214) \<or> (216 \<le> n \<and> n \<le> 246)
         \<or> (248 \<le> n \<and> n \<le> 255))"

text \<open>\<open>s.lower()\<close>\<close>

definition py_lower :: "string \<Rightarrow> string" where
  "py_lower s = map py_lower_char s"

text \<open>\<open>s.strip()\<close>: leading and trailing whitespace removed.\<close>

definition py_strip :: "string \<Rightarrow> string" where
  "py_strip s = rev (dropWhile py_isspace_char (rev (dropWhile py_isspace_char s)))"

text \<open>\<open>s.isspace()\<close>: non-empty and whitespace only.\<close>

definition py_isspace :: "string \<Rightarrow> bool" where
  "py_isspace s = (s \<noteq> [] \<and> list_all py_isspace_char s)"

text \<open>\<open>s.startswith(p)\<close>, \<open>s.endswith(p)\<close> and \<open>p in s\<close>.\<close>

fun py_startswith :: "string \<Rightarrow> string \<Rightarrow> bool" where
  "py_startswith s [] = True"
| "py_startswith [] (p # ps) = False"
| "py_startswith (c # cs) (p # ps) = (c = p \<and> py_startswith cs ps)"

definition py_endswith :: "string \<Rightarrow> string \<Rightarrow> bool" where
  "py_endswith s p = py_startswith (rev s) (rev p)"

fun py_in :: "string \<Rightarrow> string \<Rightarrow> bool" where
  "py_in p [] = (p = [])"
| "py_in p (c # cs) = (py_startswith (c # cs) p \<or> py_in p cs)"

text \<open>
  \<open>s.split()\<close>: the maximal runs of non-whitespace characters, in order. The first
  argument is the word being read.
\<close>

fun split_words :: "string \<Rightarrow> string \<Rightarrow> string list" where
  "split_words w [] = (if w = [] then [] else [w])"
| "split_words w (c # cs) =
     (if py_isspace_char c then (if w = [] then split_words [] cs else w # split_words [] cs)
      else split_words (w @ [c]) cs)"

definition py_split :: "string \<Rightarrow> string list" where
  "py_split s = split_words [] s"

section \<open>Content filter\<close>

text \<open>
  A raw page is a dictionary read from the crawl file. A key may be missing, which
  \<open>item.get(key, '')\<close> turns into the empty string; a value that is present is a string.
\<close>

record raw_page =
  raw_url :: "string option"
  raw_title :: "string option"
  raw_content :: "string option"

text \<open>\<open>item.get('url', '')\<close>, \<open>item.get('title', '')\<close>, \<open>item.get('content', '')\<close>\<close>

definition get_url :: "raw_page \<Rightarrow> string" where
  "get_url item = (case raw_url item of None \<Rightarrow> [] | Some u \<Rightarrow> u)"

definition get_title :: "raw_page \<Rightarrow> string" where
  "get_title item = (case raw_title item of None \<Rightarrow> [] | Some t \<Rightarrow> t)"

definition get_content :: "raw_page \<Rightarrow> string" where
  "get_content item = (case raw_content item of None \<Rightarrow> [] | Some c \<Rightarrow> c)"

text \<open>
  \<open>AvenDataPreprocessor.filter_relevant_content\<close>: one pass over the pages, each
  \<open>continue\<close> of the loop a branch that drops the page.
\<close>

fun filter_relevant_content :: "raw_page list \<Rightarrow> raw_page list" where
  "filter_relevant_content [] = []"
| "filter_relevant_content (item # raw_data) =
     (let url = get_url item; title = get_title item; content = get_content item
      in if content = [] \<or> py_strip content = [] then filter_relevant_content raw_data
         else if py_in ''network appears to interfere'' (py_lower content)
           then filter_relevant_content raw_data
         else if url \<noteq> [] \<and> \<not> py_in ''aven.com'' (py_lower url)
           then filter_relevant_content raw_data
         else if py_in ''staging'' (py_lower url) then filter_relevant_content raw_data
         else if py_in ''internal/crypto'' (py_lower url) then filter_relevant_content raw_data
         else if title = [] \<and> \<not> py_endswith url ''.pdf'' then filter_relevant_content raw_data
         else item # filter_relevant_content raw_data)"

text \<open>
  The retention rule as the specification words it: all five conditions hold.
\<close>

definition spec_retained :: "raw_page \<Rightarrow> bool" where
  "spec_retained p =
     (py_strip (get_content p) \<noteq> []
      \<and> \<not> py_in ''network appears to interfere'' (py_lower (get_content p))
      \<and> (get_url p = [] \<or> py_in ''aven.com'' (py_lower (get_url p)))
      \<and> \<not> py_in ''staging'' (py_lower (get_url p))
      \<and> \<not> py_in ''internal/crypto'' (py_lower (get_url p))
      \<and> (get_title p \<noteq> [] \<or> py_endswith (get_url p) ''.pdf''))"

section \<open>Normalizer\<close>

text \<open>
  \<open>re.sub(r'\s+', ' ', s)\<close>, \<open>re.sub(r'\n+', ' ', s)\<close> and \<open>re.sub(r'\t+', ' ', s)\<close>:
  every maximal run of characters of the class becomes one space.
\<close>

function sub_runs :: "(char \<Rightarrow> bool) \<Rightarrow> string \<Rightarrow> string" where
  "sub_runs P [] = []"
| "sub_runs P (c # cs) =
     (if P c then CHR '' '' # sub_runs P (dropWhile P cs) else c # sub_runs P cs)"
  by pat_completeness auto
termination
  by (relation "measure (\<lambda>(P, s). length s)")
     (auto simp: less_Suc_eq_le length_dropWhile_le)

text \<open>
  \<open>re.sub(r'<[^>]+>', '', s)\<close>: scanning from the left, a \<open><\<close> followed by at least
  one character other than \<open>>\<close> and then a \<open>>\<close> is deleted up to and including that
  \<open>>\<close>; a \<open><\<close> with no such continuation stays.
\<close>

function strip_tags :: "string \<Rightarrow> string" where
  "strip_tags [] = []"
| "strip_tags (c # cs) =
     (if c = CHR ''<'' \<and> takeWhile (\<lambda>x. x \<noteq> CHR ''>'') cs \<noteq> []
           \<and> dropWhile (\<lambda>x. x \<noteq> CHR ''>'') cs \<noteq> []
      then strip_tags (tl (dropWhile (\<lambda>x. x \<noteq> CHR ''>'') cs))
      else c # strip_tags cs)"
  by pat_completeness auto
termination
proof (relation "measure length")
  show "wf (measure length)" by simp
next
  fix c :: char and cs :: string
  have "length (tl (dropWhile (\<lambda>x. x \<noteq> CHR ''>'') cs)) \<le> length cs"
    using length_dropWhile_le [of "\<lambda>x. x \<noteq> CHR ''>''" cs] by simp
  then show "(tl (dropWhile (\<lambda>x. x \<noteq> CHR ''>'') cs), c # cs) \<in> measure length"
    by simp
next
  fix c :: char and cs :: string
  show "(cs, c # cs) \<in> measure length" by simp
qed

text \<open>
  The characters that \<open>re.sub(r'[^\w\s\.\,\!\?\:\;\-\(\)\$\%]', '', s)\<close> keeps.
\<close>

definition allowed_char :: "char \<Rightarrow> bool" where
  "allowed_char c = (py_word_char c \<or> py_isspace_char c \<or> c \<in> set ''.,!?:;-()$%'')"

text \<open>\<open>AvenDataPreprocessor.clean_content\<close>\<close>

definition clean_content :: "string \<Rightarrow> string" where
  "clean_content content =
     (if content = [] then []
      else let content = sub_runs py_isspace_char (py_strip content);
               content = sub_runs (\<lambda>c. c = CHR 0x0A) content;
               content = sub_runs (\<lambda>c. c = CHR 0x09) content;
               content = strip_tags content;
               content = filter allowed_char content
           in if content = [] \<or> py_isspace content then [] else content)"

section \<open>Categorizer, field extractor, chunker\<close>

text \<open>\<open>AvenDataPreprocessor.categorize_content\<close>: the first rule that matches wins.\<close>

definition categorize_content :: "string \<Rightarrow> string \<Rightarrow> string \<Rightarrow> string" where
  "categorize_content url title content =
     (let url_lower = py_lower url; title_lower = py_lower title
      in if py_in ''education'' url_lower \<or> py_in ''education'' title_lower then ''education''
         else if py_in ''support'' url_lower \<or> py_in ''help'' title_lower then ''support''
         else if py_in ''.pdf'' url_lower \<or> py_in ''docs'' url_lower then ''legal_document''
         else if py_in ''privacy'' url_lower \<or> py_in ''privacy'' title_lower
           then ''privacy_policy''
         else if py_in ''login'' url_lower \<or> py_in ''my.aven'' url_lower
           then ''account_management''
         else if py_in ''join'' url_lower then ''signup''
         else ''product_info'')"

text \<open>
  The four regular expressions of \<open>extract_financial_info\<close>, in the order of the source:
  fees, percentages, phone numbers, e-mail addresses. \<open>re.findall\<close> belongs to the
  Python library; it is a parameter of the model, a function from the pattern and the
  text to the list of matches.
\<close>

datatype pattern = Fees_pattern | Percentages_pattern | Phone_numbers_pattern | Emails_pattern

type_synonym findall = "pattern \<Rightarrow> string \<Rightarrow> string list"

record financial_info =
  fees :: "string list"
  percentages :: "string list"
  phone_numbers :: "string list"
  emails :: "string list"
  financial_terms :: "string list"

text \<open>\<open>AvenDataPreprocessor.extract_financial_info\<close>\<close>

definition extract_financial_info :: "findall \<Rightarrow> string \<Rightarrow> financial_info" where
  "extract_financial_info re_findall content =
     \<lparr>fees = re_findall Fees_pattern content,
      percentages = re_findall Percentages_pattern content,
      phone_numbers = re_findall Phone_numbers_pattern content,
      emails = re_findall Emails_pattern content,
      financial_terms =
        (if py_in ''cash back'' (py_lower content) then [''cash_back''] else [])
        @ (if py_in ''home equity'' (py_lower content) then [''home_equity''] else [])
        @ (if py_in ''heloc'' (py_lower content) then [''heloc''] else [])
        @ (if py_in ''credit card'' (py_lower content) then [''credit_card''] else [])
        @ (if py_in ''balance transfer'' (py_lower content) then [''balance_transfer''] else [])\<rparr>"

text \<open>
  \<open>AvenDataPreprocessor.chunk_content\<close>: the three size parameters are accepted and not
  used; the content comes back as the only chunk.
\<close>

definition chunk_content :: "string \<Rightarrow> int \<Rightarrow> int \<Rightarrow> int \<Rightarrow> string list" where
  "chunk_content content min_chunk_size max_chunk_size overlap = [content]"

section \<open>Loading the crawl file\<close>

datatype py_exception = FileNotFoundError | JSONDecodeError | KeyError | ValueError

text \<open>
  What \<open>open\<close> and \<open>json.load\<close> find at \<open>input_file\<close>: no file, a file that is not
  JSON, or a JSON array of objects, each with or without the key \<open>page_info\<close>.
\<close>

record root_entry =
  page_info :: "raw_page list option"

datatype input_file = No_such_file | Malformed_json | Json_document "root_entry list"

text \<open>The lines a stage prints.\<close>

datatype message =
    Error_loading_data py_exception
  | Original_data nat
  | Filtered_data nat

text \<open>The \<open>try\<close> block of \<open>load_data\<close>: \<open>data[0]['page_info'] if data else []\<close>.\<close>

definition load_data_try :: "input_file \<Rightarrow> py_exception + raw_page list" where
  "load_data_try input_file =
     (case input_file of
        No_such_file \<Rightarrow> Inl FileNotFoundError
      | Malformed_json \<Rightarrow> Inl JSONDecodeError
      | Json_document data \<Rightarrow>
          (case data of
             [] \<Rightarrow> Inr []
           | entry # _ \<Rightarrow>
               (case page_info entry of None \<Rightarrow> Inl KeyError | Some pages \<Rightarrow> Inr pages)))"

text \<open>
  \<open>AvenDataPreprocessor.load_data\<close>: the pages and what was printed. Every exception
  of the \<open>try\<close> block is caught, reported and answered with the empty list.
\<close>

definition load_data :: "input_file \<Rightarrow> raw_page list \<times> message list" where
  "load_data input_file =
     (case load_data_try input_file of
        Inr pages \<Rightarrow> (pages, [])
      | Inl e \<Rightarrow> ([], [Error_loading_data e]))"

section \<open>Processed items\<close>

text \<open>\<open>str(n)\<close> for a length: the decimal digits, most significant first.\<close>

definition digit_char :: "nat \<Rightarrow> char" where
  "digit_char d = char_of (48 + d)"

function str_nat :: "nat \<Rightarrow> string" where
  "str_nat n = (if n < 10 then [digit_char n] else str_nat (n div 10) @ [digit_char (n mod 10)])"
  by pat_completeness auto
termination
  by (relation "measure id") auto

declare str_nat.simps [simp del]

record metadata =
  url :: string
  title :: string
  category :: string
  chunk_index :: nat
  total_chunks :: nat
  chunk_size :: nat
  word_count :: nat
  financial_info :: financial_info

text \<open>
  A processed item. The three embedding keys are absent until the embedding stage adds
  them; \<open>'f\<close> is the type of a vector's coordinates.
\<close>

record 'f processed_item =
  item_id :: string
  content :: string
  metadata :: metadata
  embedding :: "'f list option"
  embedding_model :: "string option"
  embedding_dimension :: "nat option"

section \<open>Preprocessing run\<close>

text \<open>
  The body of the loop of \<open>process_data\<close> over the filtered pages, for one page:
  \<open>processed_data\<close> is \<open>self.processed_data\<close> before the page and the result is
  \<open>self.processed_data\<close> after it. A page whose cleaned content has fewer than ten
  words adds nothing; otherwise the inner loop appends one item per chunk, its id built
  from the url and the length of \<open>self.processed_data\<close> at that moment.
\<close>

definition process_item ::
  "findall \<Rightarrow> int \<Rightarrow> int \<Rightarrow> int \<Rightarrow> 'f processed_item list \<Rightarrow> raw_page
     \<Rightarrow> 'f processed_item list" where
  "process_item re_findall min_chunk_size max_chunk_size overlap processed_data item =
     (let url = get_url item; title = get_title item; content = get_content item;
          cleaned_content = clean_content content
      in if length (py_split cleaned_content) < 10 then processed_data
         else
           let category = categorize_content url title cleaned_content;
               financial_info = extract_financial_info re_findall cleaned_content;
               chunks = chunk_content cleaned_content min_chunk_size max_chunk_size overlap
           in foldl (\<lambda>processed_data (i, chunk).
                       processed_data @
                         [\<lparr>item_id = url @ ''_'' @ str_nat (length processed_data),
                           content = chunk,
                           metadata =
                             \<lparr>url = url, title = title, category = category,
                              chunk_index = i, total_chunks = length chunks,
                              chunk_size = length chunk,
                              word_count = length (py_split chunk),
                              financial_info = financial_info\<rparr>,
                           embedding = None, embedding_model = None,
                           embedding_dimension = None\<rparr>])
                processed_data (enumerate 0 chunks))"

text \<open>
  \<open>AvenDataPreprocessor.process_data\<close>: load, filter, then the loop. The first
  component is \<open>self.processed_data\<close> after the run, which is also the value returned;
  the second is what was printed.
\<close>

definition process_data ::
  "findall \<Rightarrow> input_file \<Rightarrow> int \<Rightarrow> int \<Rightarrow> int \<Rightarrow> 'f processed_item list
     \<Rightarrow> 'f processed_item list \<times> message list" where
  "process_data re_findall input_file min_chunk_size max_chunk_size overlap processed_data =
     (let (raw_data, printed) = load_data input_file;
          filtered_data = filter_relevant_content raw_data
      in (foldl (process_item re_findall min_chunk_size max_chunk_size overlap)
            processed_data filtered_data,
          printed @ [Original_data (length raw_data), Filtered_data (length filtered_data)]))"

text \<open>
  The values \<open>self.processed_data\<close> can take: the constructor sets it to the empty
  list, and only \<open>process_data\<close> changes it.
\<close>

inductive preprocessor_state :: "findall \<Rightarrow> 'f processed_item list \<Rightarrow> bool"
  for re_findall :: findall where
  init: "preprocessor_state re_findall []"
| run: "preprocessor_state re_findall processed_data \<Longrightarrow>
        preprocessor_state re_findall
          (fst (process_data re_findall input_file min_chunk_size max_chunk_size overlap
                  processed_data))"

section \<open>Embedding batch engine\<close>

text \<open>
  The remote call \<open>genai.embed_content(content=text, model=self.model)\<close> followed by
  \<open>result['embedding']\<close>: it takes the state of the service, the text and the model
  name, and gives the vector, or \<open>None\<close> when an exception is raised, with the next
  state of the service. A service may answer the same text differently on a second call.
\<close>

type_synonym ('s, 'f) embed_content = "'s \<Rightarrow> string \<Rightarrow> string \<Rightarrow> 'f list option \<times> 's"

text \<open>\<open>GeminiEmbeddingGenerator.generate_embedding\<close>: a failure is the empty vector.\<close>

definition generate_embedding ::
  "('s, 'f) embed_content \<Rightarrow> string \<Rightarrow> 's \<Rightarrow> string \<Rightarrow> 'f list \<times> 's" where
  "generate_embedding embed_content model s text =
     (case embed_content s text model of
        (Some v, s') \<Rightarrow> (v, s')
      | (None, s') \<Rightarrow> ([], s'))"

text \<open>
  The \<open>try\<close> block for one batch: one call per text, collected in
  \<open>batch_embeddings\<close>; the first exception leaves the block, and the result is
  \<open>None\<close>.
\<close>

fun batch_try ::
  "('s, 'f) embed_content \<Rightarrow> string \<Rightarrow> 's \<Rightarrow> string list \<Rightarrow> 'f list list
     \<Rightarrow> 'f list list option \<times> 's" where
  "batch_try embed_content model s [] batch_embeddings = (Some batch_embeddings, s)"
| "batch_try embed_content model s (text # batch) batch_embeddings =
     (case embed_content s text model of
        (None, s') \<Rightarrow> (None, s')
      | (Some v, s') \<Rightarrow> batch_try embed_content model s' batch (batch_embeddings @ [v]))"

text \<open>The \<open>except\<close> block: every text of the batch again, one by one.\<close>

fun batch_retry ::
  "('s, 'f) embed_content \<Rightarrow> string \<Rightarrow> 's \<Rightarrow> string list \<Rightarrow> 'f list list
     \<Rightarrow> 'f list list \<times> 's" where
  "batch_retry embed_content model s [] embeddings = (embeddings, s)"
| "batch_retry embed_content model s (text # batch) embeddings =
     (let result = generate_embedding embed_content model s text
      in batch_retry embed_content model (snd result) batch (embeddings @ [fst result]))"

text \<open>
  \<open>range(0, n, step)\<close>: a zero step raises \<open>ValueError\<close>, a negative one gives the
  empty range.
\<close>

definition py_range :: "nat \<Rightarrow> int \<Rightarrow> py_exception + nat list" where
  "py_range n step =
     (if step = 0 then Inl ValueError
      else if step < 0 then Inr []
      else Inr (map (\<lambda>k. k * nat step) [0..<(n + nat step - 1) div nat step]))"

text \<open>The slice \<open>xs[i:i + batch_size]\<close> for a positive \<open>batch_size\<close>.\<close>

definition slice :: "'a list \<Rightarrow> nat \<Rightarrow> int \<Rightarrow> 'a list" where
  "slice xs i batch_size = take (nat batch_size) (drop i xs)"

text \<open>The body of the loop over the batches, on \<open>embeddings\<close> and the service.\<close>

definition batch_step ::
  "('s, 'f) embed_content \<Rightarrow> string \<Rightarrow> string list \<Rightarrow> int \<Rightarrow> 'f list list \<times> 's \<Rightarrow> nat
     \<Rightarrow> 'f list list \<times> 's" where
  "batch_step embed_content model texts batch_size st i =
     (case st of (embeddings, s) \<Rightarrow>
        let batch = slice texts i batch_size
        in case batch_try embed_content model s batch [] of
             (Some batch_embeddings, s') \<Rightarrow> (embeddings @ batch_embeddings, s')
           | (None, s') \<Rightarrow> batch_retry embed_content model s' batch embeddings)"

text \<open>\<open>GeminiEmbeddingGenerator.generate_embeddings_batch\<close>\<close>

definition generate_embeddings_batch ::
  "('s, 'f) embed_content \<Rightarrow> string \<Rightarrow> 's \<Rightarrow> string list \<Rightarrow> int
     \<Rightarrow> py_exception + ('f list list \<times> 's)" where
  "generate_embeddings_batch embed_content model s texts batch_size =
     (case py_range (length texts) batch_size of
        Inl e \<Rightarrow> Inl e
      | Inr starts \<Rightarrow>
          Inr (foldl (batch_step embed_content model texts batch_size) ([], s) starts))"

text \<open>
  A service whose answer depends on the text alone and that keeps no state: a
  deterministic mock of the remote call, \<open>None\<close> on the texts it fails for.
\<close>

definition deterministic_service :: "(string \<Rightarrow> 'f list option) \<Rightarrow> ('s, 'f) embed_content" where
  "deterministic_service f s text model = (f text, s)"

text \<open>\<open>GeminiEmbeddingGenerator.process_data_with_embeddings\<close>\<close>

definition process_data_with_embeddings ::
  "('s, 'f) embed_content \<Rightarrow> string \<Rightarrow> 's \<Rightarrow> 'f processed_item list \<Rightarrow> int
     \<Rightarrow> py_exception + ('f processed_item list \<times> 's)" where
  "process_data_with_embeddings embed_content model s processed_data batch_size =
     (let texts = map content processed_data
      in case generate_embeddings_batch embed_content model s texts batch_size of
           Inl e \<Rightarrow> Inl e
         | Inr (embeddings, s') \<Rightarrow>
             Inr (map (\<lambda>(i, item).
                         if i < length embeddings
                         then item\<lparr>embedding := Some (embeddings ! i),
                                   embedding_model := Some model,
                                   embedding_dimension := Some (length (embeddings ! i))\<rparr>
                         else item)
                    (enumerate 0 processed_data), s'))"

text \<open>\<open>categories[category] = categories.get(category, 0) + 1\<close>\<close>

definition count_category :: "(string \<times> nat) list \<Rightarrow> string \<Rightarrow> (string \<times> nat) list" where
  "count_category categories c =
     AList.update c (case map_of categories c of None \<Rightarrow> 1 | Some n \<Rightarrow> n + 1) categories"

record summary =
  total_items :: nat
  items_with_embeddings :: nat
  embedding_success_rate :: real
  summary_embedding_dimension :: nat
  model_used :: string
  categories :: "(string \<times> nat) list"

text \<open>
  \<open>GeminiEmbeddingGenerator.generate_summary\<close>; \<open>None\<close> is the empty dictionary
  returned for no data.
\<close>

definition generate_summary :: "string \<Rightarrow> 'f processed_item list \<Rightarrow> summary option" where
  "generate_summary model data_with_embeddings =
     (if data_with_embeddings = [] then None
      else
        let total_items = length data_with_embeddings;
            items_with_embeddings =
              length (filter (\<lambda>item. embedding item \<noteq> None) data_with_embeddings);
            embedding_dimensions =
              concat (map (\<lambda>item. case embedding item of None \<Rightarrow> [] | Some v \<Rightarrow> [length v])
                        data_with_embeddings)
        in Some \<lparr>total_items = total_items,
                 items_with_embeddings = items_with_embeddings,
                 embedding_success_rate =
                   (if total_items > 0 then real items_with_embeddings / real total_items
                    else 0),
                 summary_embedding_dimension =
                   (case embedding_dimensions of [] \<Rightarrow> 0 | d # _ \<Rightarrow> d),
                 model_used = model,
                 categories =
                   foldl (\<lambda>categories item. count_category categories (category (metadata item)))
                     [] data_with_embeddings\<rparr>)"

section \<open>Vector store adapter\<close>

text \<open>
  The flat metadata sent to the store: url, title, category, word count.
\<close>

type_synonym flat_metadata = "string \<times> string \<times> string \<times> nat"

text \<open>
  Modelled from the spec: the remote collection behind \<open>collection.add\<close>,
  \<open>collection.count\<close> and \<open>collection.get\<close>, which belongs to the store's client
  library and not to this repository. Following the specification, the id is the
  natural key of the store: a collection holds one record (document, metadata) per id,
  and adding an id that is present overwrites its record. Failures of the remote calls
  are outside this model.
\<close>

record collection =
  name :: string
  records :: "(string \<times> string \<times> flat_metadata) list"

definition collection_add ::
  "collection \<Rightarrow> string list \<Rightarrow> string list \<Rightarrow> flat_metadata list \<Rightarrow> collection" where
  "collection_add c ids documents metadatas =
     c\<lparr>records :=
         foldl (\<lambda>rs (i, d, m). AList.update i (d, m) rs) (records c)
           (zip ids (zip documents metadatas))\<rparr>"

definition collection_count :: "collection \<Rightarrow> nat" where
  "collection_count c = length (records c)"

definition collection_get_metadatas :: "collection \<Rightarrow> flat_metadata list" where
  "collection_get_metadatas c = map (\<lambda>(i, d, m). m) (records c)"

text \<open>\<open>AvenChromaDBIntegration.insert_data_into_chroma\<close>\<close>

definition insert_data_into_chroma ::
  "collection \<Rightarrow> 'f processed_item list \<Rightarrow> int \<Rightarrow> py_exception + collection" where
  "insert_data_into_chroma c processed_data batch_size =
     (let ids = map item_id processed_data;
          documents = map content processed_data;
          metadatas =
            map (\<lambda>item. (url (metadata item), title (metadata item),
                          category (metadata item), word_count (metadata item)))
              processed_data
      in case py_range (length ids) batch_size of
           Inl e \<Rightarrow> Inl e
         | Inr starts \<Rightarrow>
             Inr (foldl (\<lambda>c i. collection_add c (slice ids i batch_size)
                                  (slice documents i batch_size)
                                  (slice metadatas i batch_size))
                    c starts))"

record stats =
  stats_total_items :: nat
  stats_categories :: "(string \<times> nat) list"
  collection_name :: string

text \<open>\<open>AvenChromaDBIntegration.get_collection_stats\<close>\<close>

definition get_collection_stats :: "collection \<Rightarrow> stats" where
  "get_collection_stats c =
     \<lparr>stats_total_items = collection_count c,
      stats_categories =
        foldl (\<lambda>categories (u, t, cat, w). count_category categories cat) []
          (collection_get_metadatas c),
      collection_name = name c\<rparr>"

section \<open>Pipeline driver\<close>

text \<open>
  What the driver reads from its environment: whether the required packages import, and
  the two keys as \<open>os.getenv\<close> returns them.
\<close>

record environment =
  dependencies_installed :: bool
  GOOGLE_API_KEY :: "string option"
  CHROMA_API_KEY :: "string option"

text \<open>\<open>not api_key\<close>: the variable is unset or empty.\<close>

definition key_missing :: "string option \<Rightarrow> bool" where
  "key_missing k = (case k of None \<Rightarrow> True | Some v \<Rightarrow> v = [])"

definition check_dependencies :: "environment \<Rightarrow> bool" where
  "check_dependencies env = dependencies_installed env"

definition check_api_key :: "environment \<Rightarrow> bool" where
  "check_api_key env = (if key_missing (GOOGLE_API_KEY env) then False else True)"

text \<open>\<open>GeminiEmbeddingGenerator.__init__\<close> with no \<open>api_key\<close> argument.\<close>

definition generator_init :: "environment \<Rightarrow> py_exception + unit" where
  "generator_init env = (if key_missing (GOOGLE_API_KEY env) then Inl ValueError else Inr ())"

text \<open>\<open>AvenChromaDBIntegration.__init__\<close>\<close>

definition chroma_init :: "environment \<Rightarrow> py_exception + unit" where
  "chroma_init env =
     (if key_missing (CHROMA_API_KEY env) then Inl ValueError
      else if key_missing (GOOGLE_API_KEY env) then Inl ValueError
      else Inr ())"

text \<open>
  The stages of \<open>run_pipeline\<close> after its checks: step 2 (load, filter, preprocess,
  save), step 3 (embed, save), step 4 (embedding files), step 5 after the store adapter
  is constructed (insert, statistics, test query).
\<close>

datatype stage = Data_preprocessing | Embedding_generation | Embeddings_storage | Store_write

text \<open>
  \<open>run_pipeline\<close>: its return value and the stages it started, in order. Each stage
  runs inside a \<open>try\<close>, and any exception there makes the driver return \<open>False\<close>;
  \<open>raises\<close> says which stages raise an exception of their own.
\<close>

definition run_pipeline :: "environment \<Rightarrow> (stage \<Rightarrow> bool) \<Rightarrow> bool \<times> stage list" where
  "run_pipeline env raises =
     (if \<not> check_dependencies env then (False, [])
      else if \<not> check_api_key env then (False, [])
      else if raises Data_preprocessing then (False, [Data_preprocessing])
      else (case generator_init env of
        Inl e \<Rightarrow> (False, [Data_preprocessing])
      | Inr _ \<Rightarrow>
          (if raises Embedding_generation
           then (False, [Data_preprocessing, Embedding_generation])
           else if raises Embeddings_storage
           then (False, [Data_preprocessing, Embedding_generation, Embeddings_storage])
           else (case chroma_init env of
             Inl e \<Rightarrow> (False, [Data_preprocessing, Embedding_generation, Embeddings_storage])
           | Inr _ \<Rightarrow>
               (if raises Store_write
                then (False, [Data_preprocessing, Embedding_generation, Embeddings_storage,
                              Store_write])
                else (True, [Data_preprocessing, Embedding_generation, Embeddings_storage,
                             Store_write]))))))"

section \<open>Auxiliary notions and sample inputs\<close>

text \<open>
  A vector \<open>v\<close> is an admissible output for \<open>text\<close>: it is the empty vector, or the
  service answered \<open>text\<close> with \<open>v\<close> in some state.
\<close>

definition answer_for :: "('s, 'f) embed_content \<Rightarrow> string \<Rightarrow> string \<Rightarrow> 'f list \<Rightarrow> bool" where
  "answer_for embed_content model text v =
     (v = [] \<or> (\<exists>s1 s2. embed_content s1 text model = (Some v, s2)))"

text \<open>A mock of the remote call that fails for the text \<open>b\<close> only.\<close>

definition mock_embedding :: "string \<Rightarrow> nat list option" where
  "mock_embedding text = (if text = ''b'' then None else Some [length text])"

text \<open>The number a string of decimal digits denotes.\<close>

definition nat_of_str :: "string \<Rightarrow> nat" where
  "nat_of_str ds = foldl (\<lambda>a c. 10 * a + (of_char c - 48)) 0 ds"

text \<open>
  The invariant behind the ids: the item at position \<open>k\<close> of \<open>self.processed_data\<close>
  has an id that ends with an underscore and the digits of \<open>k\<close>.
\<close>

definition ids_indexed :: "'f processed_item list \<Rightarrow> bool" where
  "ids_indexed processed_data =
     (\<forall>k < length processed_data. \<exists>u. item_id (processed_data ! k) = u @ ''_'' @ str_nat k)"

text \<open>
  The item that \<open>process_data\<close> appends for a page whose cleaned content has at least
  ten words, when \<open>self.processed_data\<close> has length \<open>n\<close>.
\<close>

definition new_item :: "findall \<Rightarrow> nat \<Rightarrow> raw_page \<Rightarrow> 'f processed_item" where
  "new_item re_findall n item =
     \<lparr>item_id = get_url item @ ''_'' @ str_nat n,
      content = clean_content (get_content item),
      metadata =
        \<lparr>url = get_url item, title = get_title item,
         category = categorize_content (get_url item) (get_title item)
                      (clean_content (get_content item)),
         chunk_index = 0, total_chunks = 1,
         chunk_size = length (clean_content (get_content item)),
         word_count = length (py_split (clean_content (get_content item))),
         financial_info =
           extract_financial_info re_findall (clean_content (get_content item))\<rparr>,
      embedding = None, embedding_model = None, embedding_dimension = None\<rparr>"

text \<open>A \<open>re.findall\<close> that finds nothing, and a crawl file with three pages.\<close>

definition no_matches :: findall where
  "no_matches p s = []"

definition sample_crawl :: input_file where
  "sample_crawl =
     Json_document
       [\<lparr>page_info = Some
          [\<lparr>raw_url = Some ''https://www.aven.com/card'', raw_title = Some ''Card'',
            raw_content = Some ''The Aven card lets you borrow against your home equity''\<rparr>,
           \<lparr>raw_url = Some ''https://www.aven.com/about'', raw_title = Some ''About'',
            raw_content = Some ''Too short to keep''\<rparr>,
           \<lparr>raw_url = Some ''https://www.aven.com/card'', raw_title = Some ''Card'',
            raw_content = Some ''Pay <b>no</b> annual fee and earn 2% cash back on every purchase''\<rparr>]\<rparr>]"

text \<open>A run of the driver in which no stage raises an exception of its own.\<close>

definition no_stage_raises :: "stage \<Rightarrow> bool" where
  "no_stage_raises st = False"

text \<open>
  A service that fails for every text, and the item \<open>process_data\<close> produces for the
  first page of the sample crawl.
\<close>

definition failing_service :: "(unit, real) embed_content" where
  "failing_service = deterministic_service (\<lambda>text. None)"

definition sample_item :: "real processed_item" where
  "sample_item =
     \<lparr>item_id = ''https://www.aven.com/card_0'',
      content = ''The Aven card lets you borrow against your home equity'',
      metadata =
        \<lparr>url = ''https://www.aven.com/card'', title = ''Card'', category = ''product_info'',
         chunk_index = 0, total_chunks = 1, chunk_size = 54, word_count = 10,
         financial_info =
           \<lparr>fees = [], percentages = [], phone_numbers = [], emails = [],
            financial_terms = [''home_equity'']\<rparr>\<rparr>,
      embedding = None, embedding_model = None, embedding_dimension = None\<rparr>"

section \<open>Properties of the content filter\<close>

lemma py_strip_Nil: "py_strip [] = []"
  by (simp add: py_strip_def)

lemma filter_step:
  "filter_relevant_content (item # raw_data) =
     (if spec_retained item then item # filter_relevant_content raw_data
      else filter_relevant_content raw_data)"
  by (auto simp: spec_retained_def Let_def py_strip_Nil)

text \<open>
  Claim C2. The filter keeps exactly the pages that satisfy the retention rule of the
  specification (content non-empty after trimming, no interference sentinel, a non-empty
  url names the root domain, no staging or internal/crypto url, a title unless the url ends
  with .pdf), each once and in the order of the input.
\<close>

theorem filter_relevant_content_retains:
  "filter_relevant_content raw_data = filter spec_retained raw_data"
proof (induction raw_data)
  case Nil
  show ?case by simp
next
  case (Cons item raw_data)
  then show ?case by (simp only: filter_step filter.simps)
qed


text \<open>The pages of a small crawl: a product page, a staging page, a document without title.\<close>

theorem filter_relevant_content_retains_witness:
  "filter_relevant_content
     [\<lparr>raw_url = Some ''https://www.aven.com/card'', raw_title = Some ''Card'',
       raw_content = Some ''hello''\<rparr>,
      \<lparr>raw_url = Some ''https://staging.aven.com/card'', raw_title = Some ''Card'',
       raw_content = Some ''hello''\<rparr>,
      \<lparr>raw_url = Some ''https://www.aven.com/docs/x.pdf'', raw_title = None,
       raw_content = Some ''terms''\<rparr>]
   = [\<lparr>raw_url = Some ''https://www.aven.com/card'', raw_title = Some ''Card'',
       raw_content = Some ''hello''\<rparr>,
      \<lparr>raw_url = Some ''https://www.aven.com/docs/x.pdf'', raw_title = None,
       raw_content = Some ''terms''\<rparr>]"
proof -
  let ?pages =
    "[\<lparr>raw_url = Some ''https://www.aven.com/card'', raw_title = Some ''Card'',
       raw_content = Some ''hello''\<rparr>,
      \<lparr>raw_url = Some ''https://staging.aven.com/card'', raw_title = Some ''Card'',
       raw_content = Some ''hello''\<rparr>,
      \<lparr>raw_url = Some ''https://www.aven.com/docs/x.pdf'', raw_title = None,
       raw_content = Some ''terms''\<rparr>]"
  have "filter_relevant_content ?pages = filter spec_retained ?pages"
    by (rule filter_relevant_content_retains)
  also have "\<dots> = [\<lparr>raw_url = Some ''https://www.aven.com/card'', raw_title = Some ''Card'',
       raw_content = Some ''hello''\<rparr>,
      \<lparr>raw_url = Some ''https://www.aven.com/docs/x.pdf'', raw_title = None,
       raw_content = Some ''terms''\<rparr>]"
    by code_simp
  finally show ?thesis .
qed

section \<open>Properties of the embedding batch engine\<close>

lemma batch_try_answers:
  "batch_try ec m s batch acc = (Some be, s') \<Longrightarrow>
     \<exists>vs. be = acc @ vs \<and> list_all2 (answer_for ec m) batch vs"
proof (induction batch arbitrary: s acc)
  case Nil
  then show ?case by simp
next
  case (Cons t batch)
  obtain r s1 where call: "ec s t m = (r, s1)" by (cases "ec s t m")
  with Cons.prems obtain v where r: "r = Some v"
    and rest: "batch_try ec m s1 batch (acc @ [v]) = (Some be, s')"
    by (cases r) auto
  from Cons.IH [OF rest] obtain vs where
    "be = (acc @ [v]) @ vs" "list_all2 (answer_for ec m) batch vs" by blast
  moreover have "answer_for ec m t v"
    using call r by (auto simp: answer_for_def)
  ultimately show ?case by (intro exI [of _ "v # vs"]) simp
qed

lemma batch_retry_answers:
  "\<exists>vs. fst (batch_retry ec m s batch acc) = acc @ vs \<and> list_all2 (answer_for ec m) batch vs"
proof (induction batch arbitrary: s acc)
  case Nil
  then show ?case by simp
next
  case (Cons t batch)
  let ?r = "generate_embedding ec m s t"
  from Cons.IH [of "snd ?r" "acc @ [fst ?r]"] obtain vs where
    vs: "fst (batch_retry ec m (snd ?r) batch (acc @ [fst ?r])) = (acc @ [fst ?r]) @ vs"
        "list_all2 (answer_for ec m) batch vs" by blast
  have "answer_for ec m t (fst ?r)"
    by (cases "ec s t m") (auto simp: generate_embedding_def answer_for_def split: option.splits)
  with vs show ?case by (intro exI [of _ "fst ?r # vs"]) (simp add: Let_def)
qed

lemma batch_step_answers:
  "\<exists>vs. fst (batch_step ec m texts b (embs, s) i) = embs @ vs
        \<and> list_all2 (answer_for ec m) (slice texts i b) vs"
proof (cases "batch_try ec m s (slice texts i b) []")
  case (Pair r s1)
  show ?thesis
  proof (cases r)
    case None
    with Pair show ?thesis
      using batch_retry_answers [of ec m s1 "slice texts i b" embs]
      by (simp add: batch_step_def)
  next
    case (Some be)
    with Pair batch_try_answers [of ec m s "slice texts i b" "[]" be s1]
    show ?thesis by (auto simp: batch_step_def)
  qed
qed

lemma batches_answers:
  "\<exists>vs. fst (foldl (batch_step ec m texts b) (embs, s) starts) = embs @ vs
        \<and> list_all2 (answer_for ec m) (concat (map (\<lambda>i. slice texts i b) starts)) vs"
proof (induction starts arbitrary: embs s)
  case Nil
  then show ?case by simp
next
  case (Cons i starts)
  obtain e1 s1 where st: "batch_step ec m texts b (embs, s) i = (e1, s1)"
    by (cases "batch_step ec m texts b (embs, s) i")
  from batch_step_answers [of ec m texts b embs s i] st obtain vs1 where
    vs1: "e1 = embs @ vs1" "list_all2 (answer_for ec m) (slice texts i b) vs1" by auto
  from Cons.IH [of e1 s1] obtain vs2 where
    vs2: "fst (foldl (batch_step ec m texts b) (e1, s1) starts) = e1 @ vs2"
         "list_all2 (answer_for ec m) (concat (map (\<lambda>i. slice texts i b) starts)) vs2" by blast
  show ?case
    using st vs1 vs2 by (intro exI [of _ "vs1 @ vs2"]) (simp add: list_all2_appendI)
qed

lemma concat_slices_take:
  "concat (map (\<lambda>k. take b (drop (k * b) xs)) [0..<m]) = take (m * b) xs"
proof (induction m)
  case 0
  show ?case by simp
next
  case (Suc m)
  have "take (m * b + b) xs = take (m * b) xs @ take b (drop (m * b) xs)"
    by (rule take_add)
  with Suc show ?case by (simp add: add.commute)
qed

lemma batches_cover: "0 < b \<Longrightarrow> (n::nat) \<le> (n + b - 1) div b * b"
proof -
  assume b: "0 < b"
  have "(n + b - 1) div b * b = (n + b - 1) - (n + b - 1) mod b"
    by (simp add: minus_mod_eq_div_mult)
  moreover have "(n + b - 1) mod b \<le> b - 1"
    using b by (metis Suc_pred' less_Suc_eq_le mod_less_divisor)
  ultimately show ?thesis using b by linarith
qed

lemma py_range_slices:
  assumes "1 \<le> b"
  shows "\<exists>starts. py_range (length xs) b = Inr starts
           \<and> concat (map (\<lambda>i. slice xs i b) starts) = xs"
proof -
  from assms have pos: "0 < nat b" by simp
  let ?m = "(length xs + nat b - 1) div nat b"
  have "concat (map (\<lambda>i. slice xs i b) (map (\<lambda>k. k * nat b) [0..<?m])) = take (?m * nat b) xs"
    using concat_slices_take [of "nat b" xs ?m] by (simp add: slice_def comp_def)
  also have "\<dots> = xs" using batches_cover [OF pos, of "length xs"] by simp
  finally show ?thesis using assms by (simp add: py_range_def)
qed


lemma deterministic_service_apply:
  "deterministic_service f s t m = (f t, s)"
  by (simp add: deterministic_service_def)

lemma batch_try_deterministic_Cons:
  "batch_try (deterministic_service f) m s (t # batch) acc =
     (case f t of None \<Rightarrow> (None, s)
      | Some v \<Rightarrow> batch_try (deterministic_service f) m s batch (acc @ [v]))"
  by (simp add: deterministic_service_apply split: option.splits)

lemma batch_try_deterministic:
  "batch_try (deterministic_service f) m s batch acc = (r, s') \<Longrightarrow>
     s' = s \<and> (\<forall>be. r = Some be \<longrightarrow>
                 be = acc @ map (\<lambda>t. case f t of None \<Rightarrow> [] | Some v \<Rightarrow> v) batch)"
proof (induction batch arbitrary: acc)
  case Nil
  then show ?case by auto
next
  case (Cons t batch)
  show ?case
  proof (cases "f t")
    case None
    with Cons.prems have "(None, s) = (r, s')"
      by (simp only: batch_try_deterministic_Cons option.case)
    then show ?thesis by auto
  next
    case (Some v)
    with Cons.prems have "batch_try (deterministic_service f) m s batch (acc @ [v]) = (r, s')"
      by (simp only: batch_try_deterministic_Cons option.case)
    from Cons.IH [OF this] Some show ?thesis by simp
  qed
qed

lemma batch_retry_deterministic:
  "batch_retry (deterministic_service f) m s batch acc =
     (acc @ map (\<lambda>t. case f t of None \<Rightarrow> [] | Some v \<Rightarrow> v) batch, s)"
proof (induction batch arbitrary: acc)
  case Nil
  show ?case by simp
next
  case (Cons t batch)
  have "generate_embedding (deterministic_service f) m s t =
          ((case f t of None \<Rightarrow> [] | Some v \<Rightarrow> v), s)"
    by (simp add: generate_embedding_def deterministic_service_apply split: option.splits)
  with Cons.IH show ?case by (simp add: Let_def)
qed

lemma batch_step_deterministic:
  "batch_step (deterministic_service f) m texts b (embs, s) i =
     (embs @ map (\<lambda>t. case f t of None \<Rightarrow> [] | Some v \<Rightarrow> v) (slice texts i b), s)"
proof (cases "batch_try (deterministic_service f) m s (slice texts i b) []")
  case (Pair r s1)
  from batch_try_deterministic [OF Pair] have s1: "s1 = s"
    and r: "\<forall>be. r = Some be \<longrightarrow>
              be = map (\<lambda>t. case f t of None \<Rightarrow> [] | Some v \<Rightarrow> v) (slice texts i b)"
    by simp_all
  show ?thesis
  proof (cases r)
    case None
    with Pair s1 show ?thesis by (simp add: batch_step_def batch_retry_deterministic)
  next
    case (Some be)
    with Pair s1 r show ?thesis by (simp add: batch_step_def)
  qed
qed

lemma batches_deterministic:
  "foldl (batch_step (deterministic_service f) m texts b) (embs, s) starts =
     (embs @ map (\<lambda>t. case f t of None \<Rightarrow> [] | Some v \<Rightarrow> v)
               (concat (map (\<lambda>i. slice texts i b) starts)), s)"
  by (induction starts arbitrary: embs) (simp_all add: batch_step_deterministic)

text \<open>
  Claim C1. For a batch size of at least one the engine returns, and its output has the
  length of the input. The vector in slot \<open>i\<close> belongs to \<open>texts ! i\<close>: it is empty
  or an answer of the service for that text. For a service that answers each text the
  same way every time, slot \<open>i\<close> is exactly the answer for \<open>texts ! i\<close>, and the empty
  vector where the service fails for it; the other slots are not affected.
\<close>

theorem generate_embeddings_batch_aligned:
  assumes "1 \<le> batch_size"
  shows "(\<exists>embeddings s'.
            generate_embeddings_batch embed_content model s texts batch_size
              = Inr (embeddings, s')
            \<and> length embeddings = length texts
            \<and> (\<forall>i < length texts.
                  embeddings ! i = []
                  \<or> (\<exists>s1 s2. embed_content s1 (texts ! i) model = (Some (embeddings ! i), s2))))
         \<and> generate_embeddings_batch (deterministic_service f) model s texts batch_size
             = Inr (map (\<lambda>t. case f t of None \<Rightarrow> [] | Some v \<Rightarrow> v) texts, s)"
proof -
  from py_range_slices [OF assms, of texts] obtain starts where
    range: "py_range (length texts) batch_size = Inr starts"
    and cover: "concat (map (\<lambda>i. slice texts i batch_size) starts) = texts" by blast
  let ?run = "foldl (batch_step embed_content model texts batch_size) ([], s) starts"
  from batches_answers [of embed_content model texts batch_size "[]" s starts] cover
  have all2: "list_all2 (answer_for embed_content model) texts (fst ?run)" by auto
  have gen: "generate_embeddings_batch embed_content model s texts batch_size
               = Inr (fst ?run, snd ?run)"
    using range by (simp add: generate_embeddings_batch_def)
  have len: "length (fst ?run) = length texts"
    using all2 by (simp add: list_all2_lengthD)
  have slots: "\<forall>i < length texts.
       fst ?run ! i = []
       \<or> (\<exists>s1 s2. embed_content s1 (texts ! i) model = (Some (fst ?run ! i), s2))"
    using all2 by (auto simp: list_all2_conv_all_nth answer_for_def)
  have det: "generate_embeddings_batch (deterministic_service f) model s texts batch_size
      = Inr (map (\<lambda>t. case f t of None \<Rightarrow> [] | Some v \<Rightarrow> v) texts, s)"
    using range cover by (simp add: generate_embeddings_batch_def batches_deterministic)
  show ?thesis
  proof (rule conjI)
    show "\<exists>embeddings s'.
            generate_embeddings_batch embed_content model s texts batch_size
              = Inr (embeddings, s')
            \<and> length embeddings = length texts
            \<and> (\<forall>i < length texts.
                  embeddings ! i = []
                  \<or> (\<exists>s1 s2. embed_content s1 (texts ! i) model = (Some (embeddings ! i), s2)))"
      using gen len slots by (intro exI [of _ "fst ?run"] exI [of _ "snd ?run"] conjI)
  next
    show "generate_embeddings_batch (deterministic_service f) model s texts batch_size
             = Inr (map (\<lambda>t. case f t of None \<Rightarrow> [] | Some v \<Rightarrow> v) texts, s)"
      by (rule det)
  qed
qed

theorem generate_embeddings_batch_aligned_witness:
  "(1::int) \<le> 2
   \<and> generate_embeddings_batch (deterministic_service mock_embedding) ''models/embedding-001'' ()
        [''a'', ''b'', ''cc'', ''ddd'', ''e''] 2
       = Inr ([[1], [], [2], [3], [1]], ())"
proof -
  have b: "(1::int) \<le> 2" by simp
  have "generate_embeddings_batch (deterministic_service mock_embedding) ''models/embedding-001'' ()
          [''a'', ''b'', ''cc'', ''ddd'', ''e''] 2
        = Inr (map (\<lambda>t. case mock_embedding t of None \<Rightarrow> [] | Some v \<Rightarrow> v)
                 [''a'', ''b'', ''cc'', ''ddd'', ''e''], ())"
    using generate_embeddings_batch_aligned [OF b, where f = mock_embedding] by (rule conjunct2)
  then show ?thesis by (simp add: mock_embedding_def)
qed



section \<open>Properties of the chunker\<close>

text \<open>
  Claim C7, as stated, fails for the empty text: the chunker returns one chunk, the empty
  string, and not zero chunks.
\<close>

theorem chunk_content_empty_counterexample:
  "chunk_content [] 25 50 5 = [[]] \<and> length (chunk_content [] 25 50 5) \<noteq> 0"
  by (simp add: chunk_content_def)

text \<open>
  Claim C7, amended. For every text and every choice of the size parameters the chunker
  returns exactly one chunk, the text itself, also for the empty text; the
  concatenation of the chunks is the text.
\<close>

theorem chunk_content_single:
  "chunk_content txt min_chunk_size max_chunk_size overlap = [txt]
   \<and> length (chunk_content txt min_chunk_size max_chunk_size overlap) = 1
   \<and> concat (chunk_content txt min_chunk_size max_chunk_size overlap) = txt"
  by (simp add: chunk_content_def)

section \<open>Properties of the loader\<close>

text \<open>
  Claim C9. For a missing file and for a file that is not JSON, \<open>load_data\<close> prints
  the error and returns the empty list; it raises nothing, and a run of
  \<open>process_data\<close> on such a file leaves \<open>self.processed_data\<close> as it was.
\<close>

theorem load_data_missing_or_malformed:
  "load_data No_such_file = ([], [Error_loading_data FileNotFoundError])
   \<and> load_data Malformed_json = ([], [Error_loading_data JSONDecodeError])
   \<and> fst (process_data re_findall No_such_file min_chunk_size max_chunk_size overlap
             processed_data) = processed_data
   \<and> fst (process_data re_findall Malformed_json min_chunk_size max_chunk_size overlap
             processed_data) = processed_data"
  by (simp add: load_data_def load_data_try_def process_data_def)

section \<open>Properties of the normalizer\<close>

text \<open>
  Claim C6 at the input \<open>a <b> c\<close>: whitespace is collapsed before the tag is removed,
  so the first pass leaves two adjacent spaces, which a second pass collapses. The two
  results differ.
\<close>

theorem clean_content_twice_differs:
  "clean_content ''a <b> c'' = ''a  c''
   \<and> clean_content (clean_content ''a <b> c'') = ''a c''"
  by code_simp

section \<open>Properties of the pipeline driver\<close>

text \<open>
  Claim C8, as stated, fails for the store key: with the embedding key set and the store
  key missing, the driver runs preprocessing, embedding and the embedding files before
  the store adapter raises.
\<close>

theorem run_pipeline_chroma_key_counterexample:
  "key_missing (CHROMA_API_KEY
      \<lparr>dependencies_installed = True, GOOGLE_API_KEY = Some ''g'', CHROMA_API_KEY = None\<rparr>)
   \<and> run_pipeline
        \<lparr>dependencies_installed = True, GOOGLE_API_KEY = Some ''g'', CHROMA_API_KEY = None\<rparr>
        no_stage_raises
       = (False, [Data_preprocessing, Embedding_generation, Embeddings_storage])"
  by (simp add: run_pipeline_def key_missing_def check_dependencies_def check_api_key_def
      generator_init_def chroma_init_def no_stage_raises_def)

text \<open>
  Claim C8, amended. A missing embedding key stops the driver before any stage. A
  missing store key makes the run fail without any store write; it is found when the
  store adapter is constructed in step 5, so that with the embedding key set and no
  other failure the stages started before the error are preprocessing, embedding and
  embedding storage.
\<close>

theorem run_pipeline_missing_credentials:
  "(key_missing (GOOGLE_API_KEY env) \<longrightarrow> run_pipeline env raises = (False, []))
   \<and> (key_missing (CHROMA_API_KEY env) \<longrightarrow>
        fst (run_pipeline env raises) = False
        \<and> Store_write \<notin> set (snd (run_pipeline env raises)))
   \<and> (check_dependencies env \<and> \<not> key_missing (GOOGLE_API_KEY env)
        \<and> key_missing (CHROMA_API_KEY env) \<and> (\<forall>st. \<not> raises st) \<longrightarrow>
        snd (run_pipeline env raises)
          = [Data_preprocessing, Embedding_generation, Embeddings_storage])"
  by (simp add: run_pipeline_def check_api_key_def generator_init_def chroma_init_def)

theorem run_pipeline_missing_credentials_witness:
  "run_pipeline
     \<lparr>dependencies_installed = True, GOOGLE_API_KEY = None, CHROMA_API_KEY = Some ''c''\<rparr>
     no_stage_raises = (False, [])
   \<and> fst (run_pipeline
        \<lparr>dependencies_installed = True, GOOGLE_API_KEY = Some ''g'', CHROMA_API_KEY = Some ''''\<rparr>
        no_stage_raises) = False
   \<and> Store_write \<notin> set (snd (run_pipeline
        \<lparr>dependencies_installed = True, GOOGLE_API_KEY = Some ''g'', CHROMA_API_KEY = Some ''''\<rparr>
        no_stage_raises))
   \<and> snd (run_pipeline
        \<lparr>dependencies_installed = True, GOOGLE_API_KEY = Some ''g'', CHROMA_API_KEY = Some ''''\<rparr>
        no_stage_raises) = [Data_preprocessing, Embedding_generation, Embeddings_storage]"
  using run_pipeline_missing_credentials
          [of "\<lparr>dependencies_installed = True, GOOGLE_API_KEY = None,
                CHROMA_API_KEY = Some ''c''\<rparr>" no_stage_raises]
        run_pipeline_missing_credentials
          [of "\<lparr>dependencies_installed = True, GOOGLE_API_KEY = Some ''g'',
                CHROMA_API_KEY = Some ''''\<rparr>" no_stage_raises]
  by (simp add: key_missing_def check_dependencies_def no_stage_raises_def)

section \<open>Properties of the embedding summary\<close>

text \<open>
  Claim C5 at one item whose embedding fails in the batch and in the retry: the item
  receives the empty vector under the key \<open>embedding\<close>, the summary counts every item
  that has the key, and the reported success rate is 1 although no item has a non-empty
  vector.
\<close>

theorem success_rate_counts_failed_embedding:
  "process_data_with_embeddings failing_service ''models/embedding-001'' () [sample_item] 20
     = Inr ([sample_item\<lparr>embedding := Some [],
                          embedding_model := Some ''models/embedding-001'',
                          embedding_dimension := Some 0\<rparr>], ())
   \<and> map_option embedding_success_rate
        (generate_summary ''models/embedding-001''
           [sample_item\<lparr>embedding := Some [],
                        embedding_model := Some ''models/embedding-001'',
                        embedding_dimension := Some 0\<rparr>]) = Some 1
   \<and> length (filter (\<lambda>item. embedding item \<noteq> None \<and> embedding item \<noteq> Some [])
        [sample_item\<lparr>embedding := Some [],
                     embedding_model := Some ''models/embedding-001'',
                     embedding_dimension := Some 0\<rparr>]) = 0"
  by (simp add: process_data_with_embeddings_def generate_embeddings_batch_def py_range_def
      batch_step_def slice_def failing_service_def deterministic_service_def
      generate_embedding_def generate_summary_def enumerate_eq_zip)


section \<open>Properties of the preprocessing run\<close>

lemma of_char_digit_char: "d < 10 \<Longrightarrow> (of_char (digit_char d) :: nat) = 48 + d"
  by (simp add: digit_char_def)

lemma nat_of_str_str_nat: "nat_of_str (str_nat n) = n"
proof (induction n rule: str_nat.induct)
  case (1 n)
  show ?case
  proof (cases "n < 10")
    case True
    then show ?thesis
      by (simp add: str_nat.simps [of n] nat_of_str_def of_char_digit_char)
  next
    case False
    with "1" have IH: "nat_of_str (str_nat (n div 10)) = n div 10" by simp
    have "nat_of_str (str_nat n) = 10 * nat_of_str (str_nat (n div 10)) + n mod 10"
      using False by (simp add: str_nat.simps [of n] nat_of_str_def of_char_digit_char)
    with IH show ?thesis by simp
  qed
qed

lemma str_nat_inj: "str_nat a = str_nat b \<Longrightarrow> a = b"
  by (metis nat_of_str_str_nat)

lemma digit_char_not_underscore: "d < 10 \<Longrightarrow> digit_char d \<noteq> CHR ''_''"
proof
  assume "d < 10" and "digit_char d = CHR ''_''"
  then have "(of_char (digit_char d) :: nat) = of_char CHR ''_''" by simp
  with \<open>d < 10\<close> show False by (simp add: of_char_digit_char)
qed

lemma str_nat_no_underscore: "CHR ''_'' \<notin> set (str_nat n)"
proof (induction n rule: str_nat.induct)
  case (1 n)
  show ?case
  proof (cases "n < 10")
    case True
    then show ?thesis
      using digit_char_not_underscore [of n] by (auto simp: str_nat.simps [of n])
  next
    case False
    with "1" have "CHR ''_'' \<notin> set (str_nat (n div 10))" by simp
    moreover have "digit_char (n mod 10) \<noteq> CHR ''_''"
      by (rule digit_char_not_underscore) simp
    ultimately show ?thesis using False by (auto simp: str_nat.simps [of n])
  qed
qed

lemma takeWhile_up_to:
  "x \<notin> set xs \<Longrightarrow> takeWhile (\<lambda>c. c \<noteq> x) (xs @ x # ys) = xs"
  by (induction xs) auto

lemma suffix_after_underscore:
  assumes "CHR ''_'' \<notin> set d"
  shows "rev (takeWhile (\<lambda>c. c \<noteq> CHR ''_'') (rev (u @ ''_'' @ d))) = d"
proof -
  have "takeWhile (\<lambda>c. c \<noteq> CHR ''_'') (rev d @ CHR ''_'' # rev u) = rev d"
    using assms by (simp add: takeWhile_up_to)
  then show ?thesis by simp
qed

lemma id_counter_inj:
  assumes "u1 @ ''_'' @ str_nat n1 = u2 @ ''_'' @ str_nat n2"
  shows "n1 = n2"
proof -
  have "str_nat n1 = rev (takeWhile (\<lambda>c. c \<noteq> CHR ''_'') (rev (u1 @ ''_'' @ str_nat n1)))"
    by (simp only: suffix_after_underscore [OF str_nat_no_underscore])
  also have "\<dots> = rev (takeWhile (\<lambda>c. c \<noteq> CHR ''_'') (rev (u2 @ ''_'' @ str_nat n2)))"
    by (simp only: assms)
  also have "\<dots> = str_nat n2"
    by (simp only: suffix_after_underscore [OF str_nat_no_underscore])
  finally show ?thesis by (rule str_nat_inj)
qed

lemma ids_indexed_distinct:
  assumes "ids_indexed processed_data"
  shows "distinct (map item_id processed_data)"
proof -
  have "item_id (processed_data ! i) \<noteq> item_id (processed_data ! j)"
    if "i < length processed_data" "j < length processed_data" "i \<noteq> j" for i j
  proof
    assume eq: "item_id (processed_data ! i) = item_id (processed_data ! j)"
    from assms that obtain u1 u2 where
      "item_id (processed_data ! i) = u1 @ ''_'' @ str_nat i"
      "item_id (processed_data ! j) = u2 @ ''_'' @ str_nat j"
      unfolding ids_indexed_def by blast
    with eq have "u1 @ ''_'' @ str_nat i = u2 @ ''_'' @ str_nat j" by simp
    then have "i = j" by (rule id_counter_inj)
    with that show False by simp
  qed
  then show ?thesis by (simp add: distinct_conv_nth)
qed

lemma process_item_result:
  "process_item re_findall mn mx ov processed_data item =
     processed_data @
       (if length (py_split (clean_content (get_content item))) < 10 then []
        else [new_item re_findall (length processed_data) item])"
  by (simp add: process_item_def new_item_def Let_def chunk_content_def enumerate_eq_zip)

lemma process_item_ids_indexed:
  assumes "ids_indexed processed_data"
  shows "ids_indexed (process_item re_findall mn mx ov processed_data item)"
  using assms
  by (auto simp: process_item_result new_item_def ids_indexed_def nth_append less_Suc_eq)

lemma process_items_ids_indexed:
  "ids_indexed processed_data \<Longrightarrow>
     ids_indexed (foldl (process_item re_findall mn mx ov) processed_data pages)"
  by (induction pages arbitrary: processed_data) (simp_all add: process_item_ids_indexed)

lemma process_data_ids_indexed:
  "ids_indexed processed_data \<Longrightarrow>
     ids_indexed (fst (process_data re_findall f mn mx ov processed_data))"
  by (simp add: process_data_def Let_def process_items_ids_indexed split: prod.splits)

lemma preprocessor_state_ids_indexed:
  "preprocessor_state re_findall processed_data \<Longrightarrow> ids_indexed processed_data"
proof (induction rule: preprocessor_state.induct)
  case init
  show ?case by (simp add: ids_indexed_def)
next
  case (run processed_data input_file min_chunk_size max_chunk_size overlap)
  then show ?case by (simp add: process_data_ids_indexed)
qed

text \<open>
  Claim C3. In every state that \<open>self.processed_data\<close> can reach, after any number of
  runs of \<open>process_data\<close> on any files, the ids are pairwise distinct: the counter in
  an id is the position of the item in the collection, whatever the urls are.
\<close>

theorem processed_ids_distinct:
  "preprocessor_state re_findall processed_data \<Longrightarrow> distinct (map item_id processed_data)"
  by (rule ids_indexed_distinct) (rule preprocessor_state_ids_indexed)


theorem processed_ids_distinct_witness:
  "distinct (map item_id
     (fst (process_data no_matches sample_crawl 25 50 5 ([] :: real processed_item list))))
   \<and> map item_id
     (fst (process_data no_matches sample_crawl 25 50 5 ([] :: real processed_item list)))
     = [''https://www.aven.com/card_0'', ''https://www.aven.com/card_1'']"
proof
  have "preprocessor_state no_matches
          (fst (process_data no_matches sample_crawl 25 50 5 ([] :: real processed_item list)))"
    by (rule preprocessor_state.run) (rule preprocessor_state.init)
  then show "distinct (map item_id
     (fst (process_data no_matches sample_crawl 25 50 5 ([] :: real processed_item list))))"
    by (rule processed_ids_distinct)
next
  show "map item_id
     (fst (process_data no_matches sample_crawl 25 50 5 ([] :: real processed_item list)))
     = [''https://www.aven.com/card_0'', ''https://www.aven.com/card_1'']"
    by code_simp
qed

lemma process_items_contents:
  "map content (foldl (process_item re_findall mn mx ov) processed_data pages) =
     map content processed_data @
       filter (\<lambda>c. 10 \<le> length (py_split c)) (map (\<lambda>p. clean_content (get_content p)) pages)"
  by (induction pages arbitrary: processed_data)
     (simp_all add: process_item_result new_item_def)

lemma process_items_all:
  assumes "\<forall>it \<in> set processed_data. Q it"
    and "\<And>n p. 10 \<le> length (py_split (clean_content (get_content p)))
           \<Longrightarrow> Q (new_item re_findall n p)"
  shows "\<forall>it \<in> set (foldl (process_item re_findall mn mx ov) processed_data pages). Q it"
  using assms(1)
proof (induction pages arbitrary: processed_data)
  case Nil
  then show ?case by simp
next
  case (Cons p pages)
  have "\<forall>it \<in> set (process_item re_findall mn mx ov processed_data p). Q it"
    using Cons.prems assms(2) [of p "length processed_data"]
    by (simp add: process_item_result not_less)
  from Cons.IH [OF this] show ?case by simp
qed

text \<open>
  Claim C10. Every item of a run of \<open>process_data\<close> has a word count of at least
  ten, the number of words of its content. The contents of the items are, in order, the
  cleaned contents of the filtered pages that have at least ten words: a filtered page
  with fewer words has no item.
\<close>

theorem process_data_word_count:
  "(\<forall>item \<in> set (fst (process_data re_findall input_file min_chunk_size max_chunk_size
                         overlap [])).
      10 \<le> word_count (metadata item)
      \<and> word_count (metadata item) = length (py_split (content item)))
   \<and> map content
        (fst (process_data re_findall input_file min_chunk_size max_chunk_size overlap []))
      = filter (\<lambda>c. 10 \<le> length (py_split c))
          (map (\<lambda>p. clean_content (get_content p))
             (filter_relevant_content (fst (load_data input_file))))"
proof
  have fst_run: "fst (process_data re_findall input_file min_chunk_size max_chunk_size
                        overlap [])
      = foldl (process_item re_findall min_chunk_size max_chunk_size overlap) []
          (filter_relevant_content (fst (load_data input_file)))"
    by (simp add: process_data_def Let_def split: prod.splits)
  show "\<forall>item \<in> set (fst (process_data re_findall input_file min_chunk_size max_chunk_size
                         overlap [])).
      10 \<le> word_count (metadata item)
      \<and> word_count (metadata item) = length (py_split (content item))"
    unfolding fst_run by (rule process_items_all) (simp_all add: new_item_def)
  show "map content
        (fst (process_data re_findall input_file min_chunk_size max_chunk_size overlap []))
      = filter (\<lambda>c. 10 \<le> length (py_split c))
          (map (\<lambda>p. clean_content (get_content p))
             (filter_relevant_content (fst (load_data input_file))))"
    unfolding fst_run by (simp add: process_items_contents)
qed

theorem process_data_word_count_witness:
  "list_all (\<lambda>item. 10 \<le> word_count (metadata item)
                     \<and> word_count (metadata item) = length (py_split (content item)))
     (fst (process_data no_matches sample_crawl 25 50 5 ([] :: real processed_item list)))
   \<and> length (filter_relevant_content (fst (load_data sample_crawl))) = 3
   \<and> map content
       (fst (process_data no_matches sample_crawl 25 50 5 ([] :: real processed_item list)))
     = [''The Aven card lets you borrow against your home equity'',
        ''Pay no annual fee and earn 2% cash back on every purchase'']"
proof -
  let ?run = "fst (process_data no_matches sample_crawl 25 50 5 ([] :: real processed_item list))"
  note inst = process_data_word_count [of no_matches sample_crawl 25 50 5]
  have wc: "\<forall>item \<in> set ?run. 10 \<le> word_count (metadata item)
              \<and> word_count (metadata item) = length (py_split (content item))"
    using inst by (rule conjunct1)
  have contents: "map content ?run
      = filter (\<lambda>c. 10 \<le> length (py_split c))
          (map (\<lambda>p. clean_content (get_content p))
             (filter_relevant_content (fst (load_data sample_crawl))))"
    using inst by (rule conjunct2)
  have "filter (\<lambda>c. 10 \<le> length (py_split c))
          (map (\<lambda>p. clean_content (get_content p))
             (filter_relevant_content (fst (load_data sample_crawl))))
        = [''The Aven card lets you borrow against your home equity'',
           ''Pay no annual fee and earn 2% cash back on every purchase'']"
    by code_simp
  with contents have c: "map content ?run
        = [''The Aven card lets you borrow against your home equity'',
           ''Pay no annual fee and earn 2% cash back on every purchase'']" by (rule trans)
  have n: "length (filter_relevant_content (fst (load_data sample_crawl))) = 3"
    by code_simp
  from wc have "list_all (\<lambda>item. 10 \<le> word_count (metadata item)
                     \<and> word_count (metadata item) = length (py_split (content item))) ?run"
    by (simp only: list_all_iff)
  with n c show ?thesis by (intro conjI)
qed


section \<open>Properties of the vector store adapter\<close>

lemma update_all_keys:
  "set (map fst (foldl (\<lambda>rs (i, d, m). AList.update i (d, m) rs) rs kvs))
     = set (map fst rs) \<union> fst ` set kvs"
proof (induction kvs arbitrary: rs)
  case Nil
  show ?case by simp
next
  case (Cons kv kvs)
  obtain i d m where kv: "kv = (i, d, m)" by (cases kv)
  have "set (map fst (AList.update i (d, m) rs)) = insert i (set (map fst rs))"
    by (auto simp: update_keys)
  with Cons.IH [of "AList.update i (d, m) rs"] kv show ?case by auto
qed

lemma update_all_present:
  "fst ` set kvs \<subseteq> set (map fst rs) \<Longrightarrow>
     map fst (foldl (\<lambda>rs (i, d, m). AList.update i (d, m) rs) rs kvs) = map fst rs"
proof (induction kvs arbitrary: rs)
  case Nil
  show ?case by simp
next
  case (Cons kv kvs)
  obtain i d m where kv: "kv = (i, d, m)" by (cases kv)
  with Cons.prems have same: "map fst (AList.update i (d, m) rs) = map fst rs"
    by (simp add: update_keys)
  with Cons.prems have "fst ` set kvs \<subseteq> set (map fst (AList.update i (d, m) rs))"
    by simp
  from Cons.IH [OF this] same kv show ?case by simp
qed

lemma records_collection_add:
  "records (collection_add c ids ds ms)
     = foldl (\<lambda>rs (i, d, m). AList.update i (d, m) rs) (records c) (zip ids (zip ds ms))"
  by (simp add: collection_add_def)

lemma collection_add_keys:
  "set (map fst (records (collection_add c ids ds ms)))
     = set (map fst (records c)) \<union> fst ` set (zip ids (zip ds ms))"
  by (simp only: records_collection_add update_all_keys)

lemma collection_add_present:
  "fst ` set (zip ids (zip ds ms)) \<subseteq> set (map fst (records c)) \<Longrightarrow>
     map fst (records (collection_add c ids ds ms)) = map fst (records c)"
  by (simp only: records_collection_add update_all_present)

lemma batches_keys:
  "set (map fst (records (foldl (\<lambda>c i. collection_add c (f i) (g i) (h i)) c starts)))
     = set (map fst (records c)) \<union> (\<Union>i \<in> set starts. fst ` set (zip (f i) (zip (g i) (h i))))"
proof (induction starts arbitrary: c)
  case Nil
  show ?case by simp
next
  case (Cons i starts)
  have "set (map fst (records (foldl (\<lambda>c i. collection_add c (f i) (g i) (h i)) c (i # starts))))
      = set (map fst (records (collection_add c (f i) (g i) (h i))))
          \<union> (\<Union>i \<in> set starts. fst ` set (zip (f i) (zip (g i) (h i))))"
    using Cons.IH [of "collection_add c (f i) (g i) (h i)"] by (simp only: foldl_Cons)
  also have "\<dots> = (set (map fst (records c)) \<union> fst ` set (zip (f i) (zip (g i) (h i))))
          \<union> (\<Union>i \<in> set starts. fst ` set (zip (f i) (zip (g i) (h i))))"
    by (simp only: collection_add_keys)
  also have "\<dots> = set (map fst (records c))
          \<union> (\<Union>i \<in> set (i # starts). fst ` set (zip (f i) (zip (g i) (h i))))"
    by (simp only: list.set UN_insert Un_assoc)
  finally show ?case .
qed

lemma batches_present:
  "(\<Union>i \<in> set starts. fst ` set (zip (f i) (zip (g i) (h i)))) \<subseteq> set (map fst (records c)) \<Longrightarrow>
     map fst (records (foldl (\<lambda>c i. collection_add c (f i) (g i) (h i)) c starts))
       = map fst (records c)"
proof (induction starts arbitrary: c)
  case Nil
  show ?case by simp
next
  case (Cons i starts)
  from Cons.prems have here:
    "fst ` set (zip (f i) (zip (g i) (h i))) \<subseteq> set (map fst (records c))"
    and rest: "(\<Union>i \<in> set starts. fst ` set (zip (f i) (zip (g i) (h i))))
                 \<subseteq> set (map fst (records c))"
    by (simp_all only: list.set UN_insert Un_subset_iff)
  from here have same:
    "map fst (records (collection_add c (f i) (g i) (h i))) = map fst (records c)"
    by (rule collection_add_present)
  from rest have
    "(\<Union>i \<in> set starts. fst ` set (zip (f i) (zip (g i) (h i))))
       \<subseteq> set (map fst (records (collection_add c (f i) (g i) (h i))))"
    by (simp only: same)
  from Cons.IH [OF this] have
    "map fst (records (foldl (\<lambda>c i. collection_add c (f i) (g i) (h i))
                        (collection_add c (f i) (g i) (h i)) starts))
       = map fst (records c)"
    by (simp only: same)
  then show ?case by (simp only: foldl_Cons)
qed

text \<open>
  Claim C4. When an insertion has returned, inserting the same items again returns as
  well and leaves the number of items that the statistics report unchanged; the ids of
  the collection are the same list as before.
\<close>

theorem insert_data_into_chroma_idempotent:
  assumes "insert_data_into_chroma c processed_data batch_size = Inr c1"
  shows "\<exists>c2. insert_data_into_chroma c1 processed_data batch_size = Inr c2
           \<and> stats_total_items (get_collection_stats c2)
               = stats_total_items (get_collection_stats c1)
           \<and> map fst (records c2) = map fst (records c1)"
proof -
  let ?ids = "\<lambda>i. slice (map item_id processed_data) i batch_size"
  let ?docs = "\<lambda>i. slice (map content processed_data) i batch_size"
  let ?metas = "\<lambda>i. slice (map (\<lambda>item. (url (metadata item), title (metadata item),
                              category (metadata item), word_count (metadata item)))
                  processed_data) i batch_size"
  let ?run = "\<lambda>c starts. foldl (\<lambda>c i. collection_add c (?ids i) (?docs i) (?metas i)) c starts"
  have unfold: "insert_data_into_chroma c' processed_data batch_size =
      (case py_range (length processed_data) batch_size of
         Inl e \<Rightarrow> Inl e | Inr starts \<Rightarrow> Inr (?run c' starts))" for c'
    by (simp add: insert_data_into_chroma_def Let_def)
  from assms obtain starts where
    range: "py_range (length processed_data) batch_size = Inr starts"
    and c1: "c1 = ?run c starts"
    unfolding unfold by (cases "py_range (length processed_data) batch_size") simp_all
  have second: "insert_data_into_chroma c1 processed_data batch_size = Inr (?run c1 starts)"
    unfolding unfold by (simp only: range sum.case)
  have "set (map fst (records c1))
      = set (map fst (records c))
          \<union> (\<Union>i \<in> set starts. fst ` set (zip (?ids i) (zip (?docs i) (?metas i))))"
    unfolding c1 by (rule batches_keys)
  then have "(\<Union>i \<in> set starts. fst ` set (zip (?ids i) (zip (?docs i) (?metas i))))
          \<subseteq> set (map fst (records c1))"
    by (simp only: Un_upper2)
  then have keys: "map fst (records (?run c1 starts)) = map fst (records c1)"
    by (rule batches_present)
  have "length (records (?run c1 starts)) = length (map fst (records (?run c1 starts)))"
    by (simp only: length_map)
  also have "\<dots> = length (records c1)"
    by (simp only: keys length_map)
  finally have "stats_total_items (get_collection_stats (?run c1 starts))
               = stats_total_items (get_collection_stats c1)"
    by (simp add: get_collection_stats_def collection_count_def)
  with second keys show ?thesis by (intro exI [of _ "?run c1 starts"] conjI)
qed


theorem insert_data_into_chroma_idempotent_witness:
  "insert_data_into_chroma \<lparr>name = ''aven_financial_products'', records = []\<rparr>
     [sample_item] 10
     = Inr \<lparr>name = ''aven_financial_products'',
            records =
              [(''https://www.aven.com/card_0'',
                ''The Aven card lets you borrow against your home equity'',
                ''https://www.aven.com/card'', ''Card'', ''product_info'', 10)]\<rparr>
   \<and> (\<exists>c2. insert_data_into_chroma
               \<lparr>name = ''aven_financial_products'',
                records =
                  [(''https://www.aven.com/card_0'',
                    ''The Aven card lets you borrow against your home equity'',
                    ''https://www.aven.com/card'', ''Card'', ''product_info'', 10)]\<rparr>
               [sample_item] 10 = Inr c2
             \<and> stats_total_items (get_collection_stats c2) = 1)"
proof -
  let ?c1 = "\<lparr>name = ''aven_financial_products'',
            records =
              [(''https://www.aven.com/card_0'',
                ''The Aven card lets you borrow against your home equity'',
                ''https://www.aven.com/card'', ''Card'', ''product_info'', 10)]\<rparr>"
  have first: "insert_data_into_chroma \<lparr>name = ''aven_financial_products'', records = []\<rparr>
     [sample_item] 10 = Inr ?c1"
    by (simp add: insert_data_into_chroma_def py_range_def slice_def collection_add_def
        sample_item_def)
  from insert_data_into_chroma_idempotent [OF first] obtain c2 where
    "insert_data_into_chroma ?c1 [sample_item] 10 = Inr c2"
    "stats_total_items (get_collection_stats c2) = stats_total_items (get_collection_stats ?c1)"
    by blast
  moreover have "stats_total_items (get_collection_stats ?c1) = 1"
    by (simp add: get_collection_stats_def collection_count_def)
  ultimately have "\<exists>c2. insert_data_into_chroma ?c1 [sample_item] 10 = Inr c2
             \<and> stats_total_items (get_collection_stats c2) = 1"
    by (intro exI [of _ c2]) simp
  with first show ?thesis by (rule conjI)
qed

end
